theory Spec2Isabelle
  imports Main "HOL-Library.Word" "HOL-Library.List_Lexorder"
begin

section \<open>BikeTags: a shallow embedding of the tag engine\<close>

subsection \<open>JavaScript strings\<close>

text \<open>
  A JavaScript string is a sequence of UTF-16 code units; \<open>length\<close>, indexing, \<open>slice\<close> and
  the offsets handed to the host all count code units. The default \<open>Array.prototype.sort\<close>
  orders strings lexicographically by code unit, which is the order of \<open>HOL-Library.List_Lexorder\<close>
  on lists of words.
\<close>

type_synonym jschar = "16 word"
type_synonym jsstring = "jschar list"

definition str :: "string \<Rightarrow> jsstring" where
  "str s = map of_char s"

definition hash_char :: jschar where "hash_char = 35"    \<comment> \<open>\<open>#\<close>\<close>
definition slash :: jschar where "slash = 47"            \<comment> \<open>\<open>/\<close>\<close>
definition space :: jschar where "space = 32"

text \<open>The regular expression class \<open>\s\<close>, which is also what \<open>String.prototype.trim\<close> strips:
  the ECMAScript WhiteSpace and LineTerminator code points.\<close>

definition isSpace :: "jschar \<Rightarrow> bool" where
  "isSpace c \<longleftrightarrow>
     (9 \<le> c \<and> c \<le> 13) \<or> c = 32 \<or> c = 160 \<or> c = 5760 \<or> (8192 \<le> c \<and> c \<le> 8202) \<or>
     c = 8232 \<or> c = 8233 \<or> c = 8239 \<or> c = 8287 \<or> c = 12288 \<or> c = 65279"

text \<open>The class \<open>[\w-]\<close> (no \<open>u\<close> or \<open>i\<close> flag): ASCII letters, digits, underscore, and the hyphen.\<close>

definition isWordChar :: "jschar \<Rightarrow> bool" where
  "isWordChar c \<longleftrightarrow> (97 \<le> c \<and> c \<le> 122) \<or> (65 \<le> c \<and> c \<le> 90) \<or> (48 \<le> c \<and> c \<le> 57) \<or> c = 95"

definition isTagChar :: "jschar \<Rightarrow> bool" where
  "isTagChar c \<longleftrightarrow> isWordChar c \<or> c = 45"

text \<open>Stripping trailing white space, as the \<open>while\<close> loops of \<open>findTrailingTags\<close> do, and
  \<open>trim\<close>, which strips both ends.\<close>

fun trimEnd :: "jsstring \<Rightarrow> jsstring" where
  "trimEnd [] = []"
| "trimEnd (c # cs) = (let r = trimEnd cs in if r = [] \<and> isSpace c then [] else c # r)"

definition trim :: "jsstring \<Rightarrow> jsstring" where
  "trim s = trimEnd (dropWhile isSpace s)"

text \<open>\<open>s.startsWith(p)\<close>.\<close>

fun startsWith :: "jsstring \<Rightarrow> jsstring \<Rightarrow> bool" where
  "startsWith s [] = True"
| "startsWith [] (p # ps) = False"
| "startsWith (c # cs) (p # ps) = (c = p \<and> startsWith cs ps)"

text \<open>\<open>s.split(sep)\<close> for a one-character separator (the result is never empty), and
  \<open>parts.join(sep)\<close>.\<close>

fun split :: "jschar \<Rightarrow> jsstring \<Rightarrow> jsstring list" where
  "split sep [] = [[]]"
| "split sep (c # cs) =
     (if c = sep then [] # split sep cs
      else (case split sep cs of p # ps \<Rightarrow> (c # p) # ps | [] \<Rightarrow> [[c]]))"

fun join :: "jschar \<Rightarrow> jsstring list \<Rightarrow> jsstring" where
  "join sep [] = []"
| "join sep [p] = p"
| "join sep (p # q # ps) = p @ sep # join sep (q # ps)"

subsection \<open>Normalizer and ancestor expander\<close>

text \<open>
  \<^verbatim>\<open>t = t.replace(/\/+/, '/')\<close>: the pattern has no \<open>g\<close> flag, so \<open>replace\<close> rewrites the
  leftmost match only, which is the first maximal run of slashes.
\<close>

fun replaceFirstSlashRun :: "jsstring \<Rightarrow> jsstring" where
  "replaceFirstSlashRun [] = []"
| "replaceFirstSlashRun (c # cs) =
     (if c = slash then slash # dropWhile (\<lambda>d. d = slash) cs
      else c # replaceFirstSlashRun cs)"

definition normalizeTag :: "jsstring \<Rightarrow> jsstring" where
  "normalizeTag tag =
     (let t = trim tag;
          t = (if \<not> startsWith t [hash_char] then hash_char # t else t)
      in replaceFirstSlashRun t)"

text \<open>
  \<^verbatim>\<open>parts = full.slice(1).split('/')\<close>, then for \<open>i = 1 .. parts.length\<close> the string
  \<^verbatim>\<open>'#' + parts.slice(0, i).join('/')\<close>.
\<close>

definition addAncestors :: "jsstring \<Rightarrow> jsstring list" where
  "addAncestors full =
     (let parts = split slash (drop 1 full)
      in map (\<lambda>i. hash_char # join slash (take i parts)) [1 ..< length parts + 1])"

subsection \<open>Stable colour assigner\<close>

text \<open>
  \<open>ToInt32\<close>, the conversion behind \<open>|0\<close> and \<open><<\<close>. Every intermediate value of the hash is an
  integer far below \<open>2^53\<close>, so the double arithmetic of the source is exact and \<open>int\<close> models it.
\<close>

definition toInt32 :: "int \<Rightarrow> int" where
  "toInt32 x = (x + 2 ^ 31) mod 2 ^ 32 - 2 ^ 31"

text \<open>\<^verbatim>\<open>hash = ((hash << 5) + hash) + tag.charCodeAt(i); hash |= 0\<close>\<close>

fun djb2 :: "int \<Rightarrow> jsstring \<Rightarrow> int" where
  "djb2 hash [] = hash"
| "djb2 hash (c # cs) = djb2 (toInt32 ((toInt32 (hash * 2 ^ 5) + hash) + uint c)) cs"

text \<open>
  \<^verbatim>\<open>Math.abs(hash) % modulo\<close>. The left operand is a non-negative integer; \<open>%\<close> on a
  non-negative dividend and a positive divisor is \<open>mod\<close>. The only caller passes
  \<open>COLOR_COUNT\<close>; a zero divisor (\<open>NaN\<close> in the source) is outside the model, so the \<open>nat\<close>
  parameter (\<open>modulo\<close> in the source, a reserved name here) is read at positive values only.
\<close>

definition COLOR_COUNT :: nat where "COLOR_COUNT = 8"

definition stableIndexForTag :: "jsstring \<Rightarrow> nat \<Rightarrow> nat" where
  "stableIndexForTag tag modulus = nat \<bar>djb2 5381 tag\<bar> mod modulus"

text \<open>
  The reference definition in the words of the specification: seed 5381,
  \<open>hash = hash * 33 + charCode\<close> per character truncated to a signed 32-bit accumulator,
  folded to non-negative and reduced modulo the palette size.
\<close>

definition colorSlot_spec :: "jsstring \<Rightarrow> nat \<Rightarrow> nat" where
  "colorSlot_spec tag paletteSize =
     nat \<bar>foldl (\<lambda>h c. toInt32 (h * 33 + uint c)) 5381 tag\<bar> mod paletteSize"

subsection \<open>Tag tokenizer\<close>

record TagToken =
  tag :: jsstring
  start :: nat
  endpos :: nat    \<comment> \<open>the field \<open>end\<close> of the source\<close>

text \<open>
  The pattern \<^verbatim>\<open>/(?:^|\s)(#[\w-]+(?:\/[\w-]+)*)$/\<close>. \<open>matchSegments\<close> accepts what
  \<^verbatim>\<open>[\w-]+(?:\/[\w-]+)*$\<close> accepts, \<open>matchSegmentsRest\<close> the same once a segment has
  begun; \<open>matchTag\<close> is the capture group up to the end of the input.
\<close>

fun matchSegments :: "jsstring \<Rightarrow> bool" and matchSegmentsRest :: "jsstring \<Rightarrow> bool" where
  "matchSegments [] = False"
| "matchSegments (c # cs) = (isTagChar c \<and> matchSegmentsRest cs)"
| "matchSegmentsRest [] = True"
| "matchSegmentsRest (c # cs) =
     (if isTagChar c then matchSegmentsRest cs
      else if c = slash then matchSegments cs
      else False)"

fun matchTag :: "jsstring \<Rightarrow> bool" where
  "matchTag [] = False"
| "matchTag (c # cs) = (c = hash_char \<and> matchSegments cs)"

text \<open>
  \<open>re.exec(tail)\<close>: the engine tries the start positions from the left; at each one the
  alternative \<open>^\<close> (position 0 only) comes before \<open>\s\<close>. The result is \<open>(m.index, m[1])\<close>.
  \<open>re_exec_from i s\<close> scans the suffix \<open>s\<close> that begins at index \<open>i\<close>.
\<close>

fun re_exec_from :: "nat \<Rightarrow> jsstring \<Rightarrow> (nat \<times> jsstring) option" where
  "re_exec_from i [] = None"
| "re_exec_from i (c # cs) =
     (if i = 0 \<and> matchTag (c # cs) then Some (i, c # cs)
      else if isSpace c \<and> matchTag cs then Some (i, cs)
      else re_exec_from (Suc i) cs)"

definition re_exec :: "jsstring \<Rightarrow> (nat \<times> jsstring) option" where
  "re_exec tail = re_exec_from 0 tail"

lemma re_exec_from_index:
  "re_exec_from i s = Some (j, t) \<Longrightarrow> i \<le> j \<and> j < i + length s"
proof (induction i s rule: re_exec_from.induct)
  case (1 i)
  then show ?case by simp
next
  case (2 i c cs)
  show ?case
  proof (cases "i = 0 \<and> matchTag (c # cs)")
    case True
    with "2.prems" show ?thesis by auto
  next
    case first: False
    show ?thesis
    proof (cases "isSpace c \<and> matchTag cs")
      case True
      with first "2.prems" show ?thesis by auto
    next
      case False
      with first "2.prems" have "re_exec_from (Suc i) cs = Some (j, t)" by auto
      with "2.IH" first False have "Suc i \<le> j \<and> j < Suc i + length cs" by blast
      then show ?thesis by simp
    qed
  qed
qed

lemma re_exec_index: "re_exec tail = Some (j, t) \<Longrightarrow> j < length tail"
  using re_exec_from_index [of 0 tail j t] by (simp add: re_exec_def)

text \<open>
  The \<open>while (true)\<close> loop of \<open>findTrailingTags\<close>; \<open>tokens.unshift\<close> is \<open>#\<close>. Reading
  \<open>tail[m.index]\<close> is within range, since a match is never empty.
\<close>

function scanTrailingTags :: "jsstring \<Rightarrow> TagToken list \<Rightarrow> TagToken list" where
  "scanTrailingTags tail tokens =
     (case re_exec tail of
        None \<Rightarrow> tokens
      | Some (index, tagText) \<Rightarrow>
          (let hasLeadingSpace = (index > 0 \<and> tail ! index = space);
               startInTail = index + (if hasLeadingSpace then 1 else 0);
               start = startInTail;
               end = start + length tagText
           in scanTrailingTags (trimEnd (take index tail))
                (\<lparr>tag = tagText, start = start, endpos = end\<rparr> # tokens)))"
  by pat_completeness auto

lemma length_trimEnd: "length (trimEnd s) \<le> length s"
  by (induction s) (auto simp: Let_def)

termination scanTrailingTags
proof (relation "measure (\<lambda>(tail, tokens). length tail)")
  show "wf (measure (\<lambda>(tail, tokens). length tail))" by simp
next
  fix tail :: jsstring and tokens :: "TagToken list" and x2 index tagText
    and hasLeadingSpace startInTail s e
  assume "re_exec tail = Some x2" and "(index, tagText) = x2"
  then have "index < length tail"
    using re_exec_index [of tail index tagText] by simp
  moreover have "length (trimEnd (take index tail)) \<le> length (take index tail)"
    by (rule length_trimEnd)
  ultimately show
    "((trimEnd (take index tail), \<lparr>tag = tagText, start = s, endpos = e\<rparr> # tokens), (tail, tokens))
       \<in> measure (\<lambda>(tail, tokens). length tail)"
    by simp
qed

declare scanTrailingTags.simps [simp del]

subsection \<open>Rows and the host document\<close>

text \<open>
  A row of the host outline, as far as the engine reads and writes it: the text
  (\<open>row.text.string\<close>), the attributes attached to ranges of the text (name and half-open
  range; the engine always passes the empty value), and the row's own attribute bag.
\<close>

record Row =
  text_string :: jsstring
  text_attributes :: "(string \<times> nat \<times> nat) list"
  attributes :: "string \<rightharpoonup> jsstring"

text \<open>The four mutating host calls the engine makes on a row, and what each does to it.\<close>

datatype mutation =
    SetAttribute string jsstring         \<comment> \<open>\<open>row.setAttribute(name, value)\<close>\<close>
  | RemoveAttribute string               \<comment> \<open>\<open>row.removeAttribute(name)\<close>\<close>
  | TextAddAttribute string nat nat      \<comment> \<open>\<open>row.text.addAttribute(name, '', [start, end])\<close>\<close>
  | TextRemoveAttribute string           \<comment> \<open>\<open>row.text.removeAttribute(name)\<close>\<close>

fun perform :: "Row \<Rightarrow> mutation \<Rightarrow> Row" where
  "perform row (SetAttribute k v) = row\<lparr>attributes := (attributes row)(k \<mapsto> v)\<rparr>"
| "perform row (RemoveAttribute k) = row\<lparr>attributes := (attributes row)(k := None)\<rparr>"
| "perform row (TextAddAttribute k s e) = row\<lparr>text_attributes := text_attributes row @ [(k, s, e)]\<rparr>"
| "perform row (TextRemoveAttribute k) =
     row\<lparr>text_attributes := filter (\<lambda>(n, s, e). n \<noteq> k) (text_attributes row)\<rparr>"

definition TAGS_ATTR_NEW :: string where "TAGS_ATTR_NEW = ''bt-tags''"
definition TAGS_ATTR_OLD :: string where "TAGS_ATTR_OLD = ''data-bt-tags''"
definition FILTER_ATTR_NEW :: string where "FILTER_ATTR_NEW = ''bt-filter''"
definition FILTER_ATTR_OLD :: string where "FILTER_ATTR_OLD = ''data-bt-filter''"

text \<open>\<open>a ?? b\<close> falls through to \<open>b\<close> only when \<open>a\<close> is \<open>undefined\<close>; an empty string does not.\<close>

definition getRowTagsAttribute :: "Row \<Rightarrow> jsstring option" where
  "getRowTagsAttribute row =
     (case attributes row TAGS_ATTR_NEW of
        Some v \<Rightarrow> Some v
      | None \<Rightarrow> attributes row TAGS_ATTR_OLD)"

text \<open>The truth value of a \<open>string | undefined\<close> in a condition: a non-empty string.\<close>

fun truthy :: "jsstring option \<Rightarrow> bool" where
  "truthy None = False"
| "truthy (Some v) = (v \<noteq> [])"

definition setRowTagsAttribute :: "jsstring \<Rightarrow> mutation list" where
  "setRowTagsAttribute v = [SetAttribute TAGS_ATTR_NEW v, SetAttribute TAGS_ATTR_OLD v]"

definition removeRowTagsAttribute :: "mutation list" where
  "removeRowTagsAttribute = [RemoveAttribute TAGS_ATTR_NEW, RemoveAttribute TAGS_ATTR_OLD]"

definition setRowFilterAttribute :: "jsstring \<Rightarrow> mutation list" where
  "setRowFilterAttribute v = [SetAttribute FILTER_ATTR_NEW v, SetAttribute FILTER_ATTR_OLD v]"

definition removeRowFilterAttribute :: "mutation list" where
  "removeRowFilterAttribute = [RemoveAttribute FILTER_ATTR_NEW, RemoveAttribute FILTER_ATTR_OLD]"

definition findTrailingTags :: "Row \<Rightarrow> TagToken list" where
  "findTrailingTags row =
     (let s = text_string row;
          tail = trimEnd s
      in scanTrailingTags tail [])"

subsection \<open>The host's JSON functions\<close>

text \<open>
  \<open>JSON.parse\<close> and \<open>JSON.stringify\<close> belong to the JavaScript runtime, not to the repository;
  the engine's functions take them as parameters. A parsed value is kept as far as the
  engine inspects it: an array or not, and for each element of an array whether it is a
  string. \<open>JOther n\<close> stands for an element that is not a string (a number, boolean, \<open>null\<close>,
  object or nested array), \<open>n\<close> telling such elements apart where the source compares them
  (\<open>Set.prototype.add\<close>). \<open>None\<close> is the \<open>SyntaxError\<close> of \<open>JSON.parse\<close>.
\<close>

datatype jsval = JStr jsstring | JOther nat

datatype parsed = PArray "jsval list" | PNonArray

type_synonym json_parse = "jsstring \<Rightarrow> parsed option"
type_synonym json_stringify = "jsstring list \<Rightarrow> jsstring"

fun isJStr :: "jsval \<Rightarrow> bool" where
  "isJStr (JStr s) = True"
| "isJStr (JOther n) = False"

fun strOf :: "jsval \<Rightarrow> jsstring" where
  "strOf (JStr s) = s"
| "strOf (JOther n) = []"

subsection \<open>Change-gated row updater\<close>

text \<open>\<open>Set.prototype.add\<close> on a set kept in insertion order (\<open>Array.from\<close> reads it in that order).\<close>

definition set_add :: "'a list \<Rightarrow> 'a \<Rightarrow> 'a list" where
  "set_add xs x = (if x \<in> set xs then xs else xs @ [x])"

text \<open>\<^verbatim>\<open>for (const token of tokens) addAncestors(normalizeTag(token.tag)).forEach(t => tagPaths.add(t))\<close>\<close>

definition tagPathsOf :: "TagToken list \<Rightarrow> jsstring list" where
  "tagPathsOf tokens =
     foldl (\<lambda>tagPaths token. foldl set_add tagPaths (addAncestors (normalizeTag (tag token)))) [] tokens"

text \<open>\<open>arraysEqual(a, b)\<close> with \<open>a\<close> the parsed array and \<open>b\<close> the new set: same length and
  \<open>a[i] === b[i]\<close> throughout, which a non-string element never satisfies.\<close>

fun arraysEqual :: "jsval list \<Rightarrow> jsstring list \<Rightarrow> bool" where
  "arraysEqual [] [] = True"
| "arraysEqual (a # as) (b # bs) = (a = JStr b \<and> arraysEqual as bs)"
| "arraysEqual as bs = False"

text \<open>
  \<^verbatim>\<open>existing = (JSON.parse(existingRaw) as string[]).slice().sort(); arraysEqual(existing, newSet)\<close>
  inside \<open>try\<close>. A syntax error is caught; so is the \<open>TypeError\<close> of \<open>.slice().sort()\<close> on a
  value that is not an array. On an array the default sort orders strings by code unit. It
  only permutes the elements, so when one of them is not a string \<open>arraysEqual\<close> cannot
  hold against the strings of \<open>newSet\<close>, in whatever place the sort left that element.
\<close>

definition existingEqualsNew :: "parsed option \<Rightarrow> jsstring list \<Rightarrow> bool" where
  "existingEqualsNew p newSet =
     (case p of
        None \<Rightarrow> False
      | Some PNonArray \<Rightarrow> False
      | Some (PArray vs) \<Rightarrow>
          (if list_all isJStr vs then arraysEqual (map JStr (sort (map strOf vs))) newSet
           else False))"

text \<open>The number in the template literal \<^verbatim>\<open>`bt-color-${i}`\<close>.\<close>

fun decimal :: "nat \<Rightarrow> string" where
  "decimal n = (if n < 10 then [char_of (48 + n)] else decimal (n div 10) @ [char_of (48 + n mod 10)])"

declare decimal.simps [simp del]

definition colorAttribute :: "nat \<Rightarrow> string" where
  "colorAttribute i = ''bt-color-'' @ decimal i"

text \<open>
  \<open>applyTagsToRow\<close>. Every read of the row (\<open>findTrailingTags\<close>, \<open>getRowTagsAttribute\<close>) comes
  before the first write, so the function is the list of host calls it issues, in order,
  and the row that results from performing them.
\<close>

definition applyTagsToRow_calls :: "json_parse \<Rightarrow> json_stringify \<Rightarrow> Row \<Rightarrow> mutation list" where
  "applyTagsToRow_calls parse stringify row =
     (let tokens = findTrailingTags row in
      if tokens = [] then
        (if truthy (getRowTagsAttribute row) then removeRowTagsAttribute else [])
      else
        (let newSet = sort (tagPathsOf tokens);
             existingRaw = getRowTagsAttribute row;
             unchanged = (case existingRaw of
                            None \<Rightarrow> False
                          | Some raw \<Rightarrow> raw \<noteq> [] \<and> existingEqualsNew (parse raw) newSet)
         in if unchanged then []
            else TextRemoveAttribute ''biketag''
               # map (\<lambda>i. TextRemoveAttribute (colorAttribute i)) [0 ..< COLOR_COUNT]
               @ concat (map (\<lambda>token.
                    [TextAddAttribute ''biketag'' (start token) (endpos token),
                     TextAddAttribute
                       (colorAttribute (stableIndexForTag (normalizeTag (tag token)) COLOR_COUNT))
                       (start token) (endpos token)]) tokens)
               @ setRowTagsAttribute (stringify newSet)))"

definition applyTagsToRow :: "json_parse \<Rightarrow> json_stringify \<Rightarrow> Row \<Rightarrow> Row" where
  "applyTagsToRow parse stringify row = foldl perform row (applyTagsToRow_calls parse stringify row)"

subsection \<open>Filter matcher and the filter command\<close>

text \<open>
  \<^verbatim>\<open>list.some(t => t === target || t.startsWith(target + '/'))\<close>, the expression that both
  \<open>filterByTagCommand\<close> and the sidebar item's action evaluate. On the declared type
  \<open>string[]\<close> it is \<open>tagMatches\<close>. At run time the array is whatever \<open>JSON.parse\<close> gave:
  \<open>some\<close> stops at the first hit, and reaching an element that is not a string throws a
  \<open>TypeError\<close> (no \<open>startsWith\<close> to call), which is \<open>None\<close> in \<open>someTagMatches\<close>.
\<close>

definition tagMatches :: "jsstring list \<Rightarrow> jsstring \<Rightarrow> bool" where
  "tagMatches list target = list_ex (\<lambda>t. t = target \<or> startsWith t (target @ [slash])) list"

fun someTagMatches :: "jsval list \<Rightarrow> jsstring \<Rightarrow> bool option" where
  "someTagMatches [] target = Some False"
| "someTagMatches (JStr t # ts) target =
     (if t = target \<or> startsWith t (target @ [slash]) then Some True
      else someTagMatches ts target)"
| "someTagMatches (JOther n # ts) target = None"

text \<open>The value of \<open>match\<close> for one row: \<open>false\<close> unless \<open>raw\<close> is truthy and the \<open>try\<close> block
  assigns it; every exception inside the block is swallowed by the empty \<open>catch\<close>.\<close>

definition rowMatches :: "json_parse \<Rightarrow> Row \<Rightarrow> jsstring \<Rightarrow> bool" where
  "rowMatches parse row target =
     (case getRowTagsAttribute row of
        None \<Rightarrow> False
      | Some raw \<Rightarrow>
          if raw = [] then False
          else (case parse raw of
                  None \<Rightarrow> False
                | Some PNonArray \<Rightarrow> False
                | Some (PArray list) \<Rightarrow>
                    (case someTagMatches list target of None \<Rightarrow> False | Some b \<Rightarrow> b)))"

text \<open>
  The selection (\<open>type\<close> with the character offset its \<open>detail\<close> carries, and the selected
  row), the outline editor (\<open>outline.root.descendants\<close> in document order and the
  \<open>filter\<close> property) and the command context.
\<close>

datatype selection_type = Caret nat | Text nat | Block

record Selection =
  sel_type :: selection_type
  sel_row :: Row

record Editor =
  selection :: "Selection option"
  descendants :: "Row list"
  editor_filter :: jsstring

record CommandContext =
  ctx_editor :: "Editor option"
  ctx_tag :: "jsstring option"

fun caretCharIndex :: "Selection \<Rightarrow> nat option" where
  "caretCharIndex sel =
     (case sel_type sel of Caret char \<Rightarrow> Some char | Text headChar \<Rightarrow> Some headChar | Block \<Rightarrow> None)"

fun tagAtIndex :: "nat \<Rightarrow> TagToken list \<Rightarrow> jsstring option" where
  "tagAtIndex index [] = None"
| "tagAtIndex index (t # ts) =
     (if (index \<ge> start t \<and> index < endpos t) \<or> index = endpos t then Some (normalizeTag (tag t))
      else if index > 0 \<and> index - 1 \<ge> start t \<and> index - 1 < endpos t then Some (normalizeTag (tag t))
      else tagAtIndex index ts)"

definition tagFromSelection :: "Selection \<Rightarrow> jsstring option" where
  "tagFromSelection sel =
     (let index = caretCharIndex sel;
          row = sel_row sel;
          tokens = findTrailingTags row
      in if tokens = [] then None
         else (case index of None \<Rightarrow> None | Some i \<Rightarrow> tagAtIndex i tokens))"

definition lastTrailingTag :: "Row \<Rightarrow> jsstring option" where
  "lastTrailingTag row =
     (let tokens = findTrailingTags row
      in if tokens = [] then None else Some (normalizeTag (tag (last tokens))))"

text \<open>
  The writes of a command on the editor: a host call on the row at a position of
  \<open>descendants\<close>, or an assignment to \<open>editor.filter\<close>.
\<close>

datatype editor_write = RowWrite nat mutation | SetFilter jsstring

fun performOnEditor :: "Editor \<Rightarrow> editor_write \<Rightarrow> Editor" where
  "performOnEditor ed (RowWrite i m) =
     (if i < length (descendants ed)
      then ed\<lparr>descendants := (descendants ed)[i := perform (descendants ed ! i) m]\<rparr>
      else ed)"
| "performOnEditor ed (SetFilter f) = ed\<lparr>editor_filter := f\<rparr>"

text \<open>The body of the transaction: one pass over the rows, then the filter expression.\<close>

definition filterTransaction :: "json_parse \<Rightarrow> jsstring \<Rightarrow> Row list \<Rightarrow> editor_write list" where
  "filterTransaction parse target rows =
     concat (map (\<lambda>(i, row).
        map (RowWrite i)
          (if rowMatches parse row target then setRowFilterAttribute (str ''1'')
           else removeRowFilterAttribute)) (enumerate 0 rows))
     @ [SetFilter (str ''//@bt-filter'')]"

text \<open>\<open>filterByTagCommand\<close>: the boolean it returns and the writes it made.\<close>

definition filterByTagCommand :: "json_parse \<Rightarrow> CommandContext \<Rightarrow> bool \<times> editor_write list" where
  "filterByTagCommand parse context =
     (case ctx_editor context of
        None \<Rightarrow> (False, [])
      | Some editor \<Rightarrow>
          (let resolved =
                 (if \<not> truthy (ctx_tag context) then
                    (case selection editor of
                       None \<Rightarrow> None
                     | Some sel \<Rightarrow>
                         Some (if truthy (tagFromSelection sel) then tagFromSelection sel
                               else lastTrailingTag (sel_row sel)))
                  else Some (ctx_tag context))
           in case resolved of
                None \<Rightarrow> (False, [])
              | Some target \<Rightarrow>
                  (case target of
                     None \<Rightarrow> (False, [])
                   | Some t \<Rightarrow>
                       if t = [] then (False, [])
                       else (True, filterTransaction parse t (descendants editor)))))"

text \<open>The action of a sidebar item for the node \<open>tag\<close>: the same transaction, no result.\<close>

definition sidebarAction :: "json_parse \<Rightarrow> jsstring \<Rightarrow> Editor option \<Rightarrow> editor_write list" where
  "sidebarAction parse node_tag currentOutlineEditor =
     (case currentOutlineEditor of
        None \<Rightarrow> []
      | Some editor \<Rightarrow> filterTransaction parse node_tag (descendants editor))"

subsection \<open>Tag index\<close>

text \<open>
  \<open>indexAllTags\<close>: the loop over \<open>outline.root.descendants\<close> with the set \<open>tags\<close> as
  accumulator. A value that is not an array has no \<open>forEach\<close>; the \<open>TypeError\<close> is caught and
  logged like the syntax error, before anything was added.
\<close>

fun indexAllTags_loop :: "json_parse \<Rightarrow> jsval list \<Rightarrow> Row list \<Rightarrow> jsval list" where
  "indexAllTags_loop parse tags [] = tags"
| "indexAllTags_loop parse tags (row # rows) =
     indexAllTags_loop parse
       (case attributes row ''data-bt-tags'' of
          None \<Rightarrow> tags
        | Some raw \<Rightarrow>
            if raw = [] then tags
            else (case parse raw of
                    None \<Rightarrow> tags
                  | Some PNonArray \<Rightarrow> tags
                  | Some (PArray list) \<Rightarrow> foldl set_add tags list))
       rows"

definition indexAllTags :: "json_parse \<Rightarrow> Row list \<Rightarrow> jsval list" where
  "indexAllTags parse outline_rows = indexAllTags_loop parse [] outline_rows"

subsection \<open>Hierarchy builder\<close>

text \<open>
  \<open>Array.prototype.sort(compare)\<close> is stable; on a consistent comparator its result is
  that of a stable insertion sort. \<open>String.prototype.localeCompare\<close> depends on the host's
  locale and is a parameter.
\<close>

fun insert_by :: "('a \<Rightarrow> 'a \<Rightarrow> int) \<Rightarrow> 'a \<Rightarrow> 'a list \<Rightarrow> 'a list" where
  "insert_by cmp x [] = [x]"
| "insert_by cmp x (y # ys) = (if cmp x y < 0 then x # y # ys else y # insert_by cmp x ys)"

definition sort_by :: "('a \<Rightarrow> 'a \<Rightarrow> int) \<Rightarrow> 'a list \<Rightarrow> 'a list" where
  "sort_by cmp xs = foldl (\<lambda>sorted x. insert_by cmp x sorted) [] xs"

definition depthCompare :: "(jsstring \<Rightarrow> jsstring \<Rightarrow> int) \<Rightarrow> jsstring \<Rightarrow> jsstring \<Rightarrow> int" where
  "depthCompare localeCompare a b =
     (let da = int (length (split slash a));
          db = int (length (split slash b))
      in if da \<noteq> db then da - db else localeCompare a b)"

text \<open>\<open>s.lastIndexOf(c)\<close>, \<open>-1\<close> when \<open>c\<close> does not occur.\<close>

fun lastIndexOf :: "jschar \<Rightarrow> jsstring \<Rightarrow> int" where
  "lastIndexOf c [] = - 1"
| "lastIndexOf c (x # xs) =
     (let r = lastIndexOf c xs in if r \<ge> 0 then r + 1 else if x = c then 0 else - 1)"

text \<open>
  The node objects are shared and mutated: \<open>nodeMap\<close> holds one node per tag, and
  \<open>children\<close> and \<open>rootNodes\<close> hold references to those nodes. A reference is modelled by the
  node's tag and the heap of nodes by the map from a tag to the \<open>children\<close> array of its
  node; \<open>includes(node)\<close> compares references, that is, tags. The forest the source returns
  is \<open>rootNodes\<close> read through this heap.
\<close>

record Hierarchy =
  nodeMap :: "jsstring \<rightharpoonup> jsstring list"
  rootNodes :: "jsstring list"

definition ensureNode :: "jsstring \<Rightarrow> (jsstring \<rightharpoonup> jsstring list) \<Rightarrow> (jsstring \<rightharpoonup> jsstring list)" where
  "ensureNode t m = (case m t of Some children \<Rightarrow> m | None \<Rightarrow> m(t \<mapsto> []))"

definition childrenOf :: "(jsstring \<rightharpoonup> jsstring list) \<Rightarrow> jsstring \<Rightarrow> jsstring list" where
  "childrenOf m t = (case m t of Some children \<Rightarrow> children | None \<Rightarrow> [])"

text \<open>One iteration of \<^verbatim>\<open>for (const tag of sortedByDepth)\<close>.\<close>

definition hierarchyStep :: "Hierarchy \<Rightarrow> jsstring \<Rightarrow> Hierarchy" where
  "hierarchyStep h tg =
     (let m1 = ensureNode tg (nodeMap h);
          lastSlash = lastIndexOf slash tg
      in if lastSlash > 0 then
           (let parentTag = take (nat lastSlash) tg;
                m2 = ensureNode parentTag m1;
                m3 = (if tg \<in> set (childrenOf m2 parentTag) then m2
                      else m2(parentTag \<mapsto> childrenOf m2 parentTag @ [tg]));
                roots = (if slash \<notin> set parentTag \<and> parentTag \<notin> set (rootNodes h)
                         then rootNodes h @ [parentTag] else rootNodes h)
            in \<lparr>nodeMap = m3, rootNodes = roots\<rparr>)
         else
           \<lparr>nodeMap = m1,
            rootNodes = (if tg \<notin> set (rootNodes h) then rootNodes h @ [tg] else rootNodes h)\<rparr>)"

definition buildTagHierarchy :: "(jsstring \<Rightarrow> jsstring \<Rightarrow> int) \<Rightarrow> jsstring list \<Rightarrow> Hierarchy" where
  "buildTagHierarchy localeCompare tags =
     (let sortedByDepth = sort_by (depthCompare localeCompare) tags
      in foldl hierarchyStep \<lparr>nodeMap = Map.empty, rootNodes = []\<rparr> sortedByDepth)"

text \<open>A node is in the returned forest when a root-to-node path of \<open>children\<close> links leads to it.\<close>

inductive reachable :: "Hierarchy \<Rightarrow> jsstring \<Rightarrow> bool" for h :: Hierarchy where
  root: "t \<in> set (rootNodes h) \<Longrightarrow> reachable h t"
| child: "reachable h p \<Longrightarrow> t \<in> set (childrenOf (nodeMap h) p) \<Longrightarrow> reachable h t"

subsection \<open>A concrete JSON codec for arrays of strings\<close>

text \<open>
  To run the engine on concrete rows the two host functions are instantiated:
  \<open>mini_stringify\<close> writes an array of strings as \<open>JSON.stringify\<close> does when no string holds a
  control character or a lone surrogate (only the quote and the backslash are escaped), and
  \<open>mini_parse\<close> reads such a text back. \<open>mini_parse\<close> reports every other text as a syntax
  error, so it stands for \<open>JSON.parse\<close> on texts of this form only.
\<close>

definition quote :: jschar where "quote = 34"
definition backslash :: jschar where "backslash = 92"
definition comma :: jschar where "comma = 44"
definition lbracket :: jschar where "lbracket = 91"
definition rbracket :: jschar where "rbracket = 93"

definition escape :: "jsstring \<Rightarrow> jsstring" where
  "escape s = concat (map (\<lambda>c. if c = quote \<or> c = backslash then [backslash, c] else [c]) s)"

definition quoted :: "jsstring \<Rightarrow> jsstring" where
  "quoted s = quote # escape s @ [quote]"

definition mini_stringify :: json_stringify where
  "mini_stringify xs = lbracket # join comma (map quoted xs) @ [rbracket]"

datatype scan_state = ExpectString | InString | Escaped | AfterString

fun mini_scan :: "scan_state \<Rightarrow> jsstring \<Rightarrow> jsstring list \<Rightarrow> jsstring \<Rightarrow> jsstring list option" where
  "mini_scan st cur done [] = None"
| "mini_scan ExpectString cur done (c # cs) =
     (if c = quote then mini_scan InString [] done cs else None)"
| "mini_scan InString cur done (c # cs) =
     (if c = quote then mini_scan AfterString [] (done @ [cur]) cs
      else if c = backslash then mini_scan Escaped cur done cs
      else mini_scan InString (cur @ [c]) done cs)"
| "mini_scan Escaped cur done (c # cs) =
     (if c = quote \<or> c = backslash then mini_scan InString (cur @ [c]) done cs else None)"
| "mini_scan AfterString cur done (c # cs) =
     (if c = comma then mini_scan ExpectString [] done cs
      else if c = rbracket \<and> cs = [] then Some done
      else None)"

definition mini_parse :: json_parse where
  "mini_parse s =
     (case s of
        [] \<Rightarrow> None
      | c # cs \<Rightarrow>
          if c \<noteq> lbracket then None
          else if cs = [rbracket] then Some (PArray [])
          else (case mini_scan ExpectString [] [] cs of
                  None \<Rightarrow> None
                | Some xs \<Rightarrow> Some (PArray (map JStr xs))))"

section \<open>Properties\<close>

subsection \<open>Stable colour assigner\<close>

lemma toInt32_step: "toInt32 ((toInt32 (h * 2 ^ 5) + h) + c) = toInt32 (h * 33 + c)"
proof -
  define x where "x = h * 32 + 2147483648"
  have "(x mod 4294967296 + (h + c)) mod 4294967296 = (x + (h + c)) mod (4294967296 :: int)"
    by (rule mod_add_left_eq)
  then have "(toInt32 (h * 2 ^ 5) + h + c + 2 ^ 31) mod 2 ^ 32 = (h * 33 + c + 2 ^ 31) mod (2 ^ 32 :: int)"
    by (simp add: toInt32_def x_def algebra_simps)
  then show ?thesis by (simp add: toInt32_def)
qed

lemma djb2_foldl: "djb2 h s = foldl (\<lambda>h c. toInt32 (h * 33 + uint c)) h s"
  by (induction s arbitrary: h) (simp_all only: djb2.simps foldl.simps toInt32_step)

text \<open>
  C7. \<open>stableIndexForTag\<close> is a function of the tag string alone; for the palette size 8
  (\<open>COLOR_COUNT\<close>) its value is an integer in \<open>[0, 8)\<close>, and it equals the reference definition
  \<open>colorSlot_spec\<close>: seed 5381, \<open>hash * 33 + charCode\<close> truncated to signed 32 bits per
  character, absolute value, remainder modulo the palette size.
\<close>

theorem stableIndexForTag_is_djb2:
  "COLOR_COUNT = 8 \<and> stableIndexForTag t 8 < 8 \<and> stableIndexForTag t 8 = colorSlot_spec t 8"
  by (simp add: COLOR_COUNT_def stableIndexForTag_def colorSlot_spec_def djb2_foldl)

subsection \<open>Normalizer\<close>

















subsection \<open>Tokenizer\<close>

text \<open>
  C4. The claim that every token's span starts at its \<open>#\<close> fails: the separator is skipped only
  when it is a space at an index above 0 (\<open>m.index > 0 && tail[m.index] === ' '\<close>). For the row
  text \<open>" #tag"\<close> the match begins at index 0 with the space, the token is given the span
  \<open>[0, 4)\<close>, and the character at its start is the space; the \<open>#\<close> is at index 1.
\<close>

theorem findTrailingTags_span_includes_separator:
  "findTrailingTags \<lparr>text_string = str '' #tag'', text_attributes = [], attributes = Map.empty\<rparr>
     = [\<lparr>tag = str ''#tag'', start = 0, endpos = 4\<rparr>]
   \<and> str '' #tag'' ! 0 = space \<and> str '' #tag'' ! 1 = hash_char"
  by (simp add: findTrailingTags_def scanTrailingTags.simps str_def isSpace_def isTagChar_def
      isWordChar_def hash_char_def slash_def space_def re_exec_def)

subsection \<open>Hierarchy builder\<close>

lemma no_roots_unreachable: "rootNodes h = [] \<Longrightarrow> \<not> reachable h t"
proof
  assume r: "rootNodes h = []" and "reachable h t"
  from this(2) r show False by (induction rule: reachable.induct) simp_all
qed

text \<open>
  C2. The claim that no node is orphaned fails for a tag set that lacks an ancestor of depth
  two or more. From the set \<open>{#a/b/c}\<close> the builder creates the node \<open>#a/b/c\<close> and the
  synthesized parent \<open>#a/b\<close>, links the one under the other, and places neither among the
  roots (the parent's path has a \<open>/\<close>, and its own parent \<open>#a\<close> is never created): the returned
  forest is empty and both nodes are unreachable.
\<close>

theorem buildTagHierarchy_orphans_deep_tag:
  "rootNodes (buildTagHierarchy localeCompare [str ''#a/b/c'']) = []
   \<and> nodeMap (buildTagHierarchy localeCompare [str ''#a/b/c'']) (str ''#a/b/c'') = Some []
   \<and> nodeMap (buildTagHierarchy localeCompare [str ''#a/b/c'']) (str ''#a/b'') = Some [str ''#a/b/c'']
   \<and> \<not> reachable (buildTagHierarchy localeCompare [str ''#a/b/c'']) (str ''#a/b/c'')
   \<and> \<not> reachable (buildTagHierarchy localeCompare [str ''#a/b/c'']) (str ''#a/b'')"
proof -
  have h: "buildTagHierarchy localeCompare [str ''#a/b/c''] =
     \<lparr>nodeMap = [str ''#a/b/c'' \<mapsto> [], str ''#a/b'' \<mapsto> [str ''#a/b/c'']], rootNodes = []\<rparr>"
    by (simp add: buildTagHierarchy_def sort_by_def hierarchyStep_def ensureNode_def childrenOf_def
        str_def slash_def Let_def)
  show ?thesis unfolding h by (simp add: no_roots_unreachable str_def)
qed

subsection \<open>Ancestor expansion\<close>

lemma upt_0_Suc: "[0..<Suc n] = 0 # map Suc [0..<n]"
  by (simp add: upt_conv_Cons map_Suc_upt del: upt_Suc)

lemma split_not_Nil: "split sep xs \<noteq> []"
  by (induction xs) (auto split: list.splits)

lemma join_Cons: "ps \<noteq> [] \<Longrightarrow> join sep (p # ps) = p @ sep # join sep ps"
  by (cases ps) simp_all

lemma join_Cons_Cons: "join sep ((c # p) # ps) = c # join sep (p # ps)"
  by (cases ps) simp_all

lemma slash_cuts_Cons:
  "map (\<lambda>k. take k (c # cs)) (filter (\<lambda>k. (c # cs) ! k = sep) [0..<length (c # cs)]) @ [c # cs]
   = (if c = sep then [[]] else [])
     @ map ((#) c) (map (\<lambda>k. take k cs) (filter (\<lambda>k. cs ! k = sep) [0..<length cs]) @ [cs])"
  by (simp add: upt_0_Suc filter_map o_def del: upt_Suc)

lemma split_prefixes_Cons:
  "map (\<lambda>j. join sep (take (Suc j) (split sep (c # cs)))) [0..<length (split sep (c # cs))]
   = (if c = sep then [[]] else [])
     @ map ((#) c) (map (\<lambda>j. join sep (take (Suc j) (split sep cs))) [0..<length (split sep cs)])"
proof -
  obtain p ps where S: "split sep cs = p # ps"
    using split_not_Nil [of sep cs] by (cases "split sep cs") auto
  show ?thesis
  proof (cases "c = sep")
    case True
    then show ?thesis
      by (simp add: S upt_0_Suc o_def join_Cons del: upt_Suc)
  next
    case False
    then show ?thesis
      by (simp add: S o_def join_Cons_Cons del: upt_Suc)
  qed
qed

lemma split_prefixes:
  "map (\<lambda>j. join sep (take (Suc j) (split sep xs))) [0..<length (split sep xs)]
   = map (\<lambda>k. take k xs) (filter (\<lambda>k. xs ! k = sep) [0..<length xs]) @ [xs]"
proof (induction xs)
  case Nil
  show ?case by simp
next
  case (Cons c cs)
  show ?case
    unfolding split_prefixes_Cons slash_cuts_Cons Cons.IH ..
qed

lemma addAncestors_prefixes:
  assumes "full = hash_char # rest"
  shows "addAncestors full
     = map (\<lambda>k. take k full) (filter (\<lambda>k. full ! k = slash) [0..<length full]) @ [full]"
proof -
  have hs: "hash_char \<noteq> slash" by (simp add: hash_char_def slash_def)
  have "addAncestors full
      = map ((#) hash_char) (map (\<lambda>j. join slash (take (Suc j) (split slash rest))) [0..<length (split slash rest)])"
    unfolding addAncestors_def Let_def assms
    by (simp add: map_Suc_upt [symmetric] o_def del: upt_Suc)
  also have "\<dots> = map ((#) hash_char) (map (\<lambda>k. take k rest) (filter (\<lambda>k. rest ! k = slash) [0..<length rest]) @ [rest])"
    by (simp only: split_prefixes)
  also have "\<dots> = map (\<lambda>k. take k full) (filter (\<lambda>k. full ! k = slash) [0..<length full]) @ [full]"
    using slash_cuts_Cons [of hash_char rest slash] hs unfolding assms by simp
  finally show ?thesis .
qed

lemma startsWith_hash: "startsWith t [hash_char] \<Longrightarrow> \<exists>r. t = hash_char # r"
  by (cases t) auto

lemma replaceFirstSlashRun_hash: "replaceFirstSlashRun (hash_char # r) = hash_char # replaceFirstSlashRun r"
  by (simp add: hash_char_def slash_def)

lemma normalizeTag_hash: "\<exists>r. normalizeTag t = hash_char # r"
proof (cases "startsWith (trim t) [hash_char]")
  case True
  then obtain r where "trim t = hash_char # r" using startsWith_hash by blast
  with True show ?thesis by (simp add: normalizeTag_def replaceFirstSlashRun_hash del: replaceFirstSlashRun.simps)
next
  case False
  then show ?thesis by (simp add: normalizeTag_def replaceFirstSlashRun_hash del: replaceFirstSlashRun.simps)
qed

lemma filter_no_sep:
  assumes "sep \<notin> set xs"
  shows "filter (\<lambda>k. xs ! k = sep) [0..<length xs] = []"
proof -
  have "xs ! k \<noteq> sep" if "k \<in> set [0..<length xs]" for k
  proof -
    from that have "k < length xs" by simp
    then have "xs ! k \<in> set xs" by (rule nth_mem)
    with assms show ?thesis by auto
  qed
  then show ?thesis by (simp add: filter_empty_conv)
qed

text \<open>
  C8. For every raw tag \<open>t\<close>, with \<open>n = normalizeTag t\<close>: \<open>addAncestors n\<close> is not empty and its last
  element is \<open>n\<close>; the elements before it are the prefixes of \<open>n\<close> that end just before a \<open>/\<close> of
  \<open>n\<close>, one for each \<open>/\<close>, from the leftmost (shallowest) to the rightmost (deepest); and a tag
  without \<open>/\<close>, a one-segment tag, expands to itself only.
\<close>

theorem addAncestors_normalizeTag:
  "addAncestors (normalizeTag t) \<noteq> []
   \<and> last (addAncestors (normalizeTag t)) = normalizeTag t
   \<and> butlast (addAncestors (normalizeTag t))
       = map (\<lambda>k. take k (normalizeTag t))
           (filter (\<lambda>k. normalizeTag t ! k = slash) [0..<length (normalizeTag t)])
   \<and> (slash \<notin> set (normalizeTag t) \<longrightarrow> addAncestors (normalizeTag t) = [normalizeTag t])"
proof -
  obtain r where n: "normalizeTag t = hash_char # r" using normalizeTag_hash by blast
  note eq = addAncestors_prefixes [OF n]
  have "slash \<notin> set (normalizeTag t) \<Longrightarrow> filter (\<lambda>k. normalizeTag t ! k = slash) [0..<length (normalizeTag t)] = []"
    by (rule filter_no_sep)
  with eq show ?thesis by (auto simp: butlast_append)
qed

text \<open>The raw tag \<open>"  foo "\<close> normalizes to the one-segment tag \<open>#foo\<close>.\<close>

theorem addAncestors_normalizeTag_witness:
  "slash \<notin> set (normalizeTag (str ''  foo '')) \<and> addAncestors (normalizeTag (str ''  foo '')) = [str ''#foo'']"
proof -
  have n: "normalizeTag (str ''  foo '') = str ''#foo''"
    by (simp add: normalizeTag_def str_def trim_def isSpace_def hash_char_def slash_def)
  have s: "slash \<notin> set (str ''#foo'')" by (simp add: str_def slash_def)
  from addAncestors_normalizeTag [of "str ''  foo ''"] s show ?thesis unfolding n by simp
qed

subsection \<open>The concrete codec\<close>

lemma mini_scan_InString_escape:
  "mini_scan InString cur done (escape s @ quote # rest)
     = mini_scan AfterString [] (done @ [cur @ s]) rest"
proof (induction s arbitrary: cur)
  case Nil
  show ?case by (simp add: escape_def)
next
  case (Cons c s)
  have e: "escape (c # s) = (if c = quote \<or> c = backslash then [backslash, c] else [c]) @ escape s"
    by (simp add: escape_def)
  have qb: "backslash \<noteq> quote" by (simp add: backslash_def quote_def)
  show ?case
    unfolding e using Cons.IH [of "cur @ [c]"] qb by auto
qed

lemma mini_scan_quoted:
  "mini_scan ExpectString cur done (quoted s @ rest) = mini_scan AfterString [] (done @ [s]) rest"
  using mini_scan_InString_escape [of "[]" "done" s rest] by (simp add: quoted_def)

lemma mini_scan_elements:
  "mini_scan ExpectString cur done (join comma (map quoted (x # xs)) @ [rbracket]) = Some (done @ x # xs)"
proof (induction xs arbitrary: x cur "done")
  case Nil
  have "comma \<noteq> rbracket" by (simp add: comma_def rbracket_def)
  then show ?case using mini_scan_quoted [of cur "done" x "[rbracket]"] by simp
next
  case (Cons y ys)
  have "join comma (map quoted (x # y # ys)) @ [rbracket]
      = quoted x @ comma # (join comma (map quoted (y # ys)) @ [rbracket])"
    by simp
  then show ?case
    using mini_scan_quoted [of cur "done" x "comma # (join comma (map quoted (y # ys)) @ [rbracket])"]
      Cons.IH [of "[]" "done @ [x]" y]
    by simp
qed

lemma quoted_not_rbracket: "quoted x @ r \<noteq> [rbracket]"
  by (simp add: quoted_def quote_def rbracket_def)

lemma join_quoted_not_rbracket: "join comma (map quoted (x # xs)) @ [rbracket] \<noteq> [rbracket]"
  by (cases xs) (simp_all add: quoted_def)

lemma mini_roundtrip: "mini_parse (mini_stringify xs) = Some (PArray (map JStr xs))"
proof (cases xs)
  case Nil
  then show ?thesis by (simp add: mini_parse_def mini_stringify_def)
next
  case (Cons y ys)
  show ?thesis
    unfolding Cons mini_parse_def mini_stringify_def
    using mini_scan_elements [of "[]" "[]" y ys] join_quoted_not_rbracket [of y ys]
    by simp
qed

lemma mini_stringify_not_empty: "mini_stringify xs \<noteq> []"
  by (simp add: mini_stringify_def)

subsection \<open>Filter matcher\<close>

lemma startsWith_iff: "startsWith s p \<longleftrightarrow> (\<exists>rest. s = p @ rest)"
  by (induction s p rule: startsWith.induct) auto

lemma tagMatches_iff:
  "tagMatches tags target \<longleftrightarrow>
     target \<in> set tags \<or> (\<exists>t\<in>set tags. \<exists>rest. t = target @ slash # rest)"
  by (auto simp: tagMatches_def list_ex_iff startsWith_iff)

lemma someTagMatches_strings:
  "someTagMatches (map JStr tags) target = Some (tagMatches tags target)"
  by (induction tags) (auto simp: tagMatches_def)

lemma sidebarAction_same_transaction:
  "t \<noteq> [] \<Longrightarrow>
     filterByTagCommand parse \<lparr>ctx_editor = Some ed, ctx_tag = Some t\<rparr>
       = (True, sidebarAction parse t (Some ed))"
  by (simp add: filterByTagCommand_def sidebarAction_def)

text \<open>
  C5. For a row whose persisted attribute parses to the derived tag set \<open>tags\<close>, the predicate
  that the filter command and the sidebar action evaluate (\<open>rowMatches\<close>, through
  \<open>filterTransaction\<close> in both) is true if and only if \<open>target\<close> is a member of \<open>tags\<close> or some
  member is \<open>target\<close> followed by \<open>/\<close> and anything; a set whose only member extends \<open>target\<close>
  by a character other than \<open>/\<close> does not match.
\<close>

theorem rowMatches_exact_or_descendant:
  assumes "getRowTagsAttribute row = Some raw" and "raw \<noteq> []"
    and "parse raw = Some (PArray (map JStr tags))"
  shows "(rowMatches parse row target \<longleftrightarrow>
            target \<in> set tags \<or> (\<exists>t\<in>set tags. \<exists>rest. t = target @ slash # rest))
         \<and> (\<forall>c rest. c \<noteq> slash \<longrightarrow> tags = [target @ c # rest] \<longrightarrow> \<not> rowMatches parse row target)"
proof -
  have m: "rowMatches parse row target = tagMatches tags target"
    using assms by (simp add: rowMatches_def someTagMatches_strings)
  show ?thesis unfolding m tagMatches_iff by auto
qed

text \<open>The target \<open>#that\<close> matches the set \<open>{#that, #that/nested, #this}\<close>; the target \<open>#project\<close>
  does not match \<open>{#projectx}\<close>.\<close>

theorem rowMatches_exact_or_descendant_witness:
  "rowMatches mini_parse
     \<lparr>text_string = str ''Do something important #this #that/nested'', text_attributes = [],
      attributes = [''bt-tags'' \<mapsto> mini_stringify [str ''#that'', str ''#that/nested'', str ''#this'']]\<rparr>
     (str ''#that'')
   \<and> \<not> rowMatches mini_parse
     \<lparr>text_string = str ''x #projectx'', text_attributes = [],
      attributes = [''bt-tags'' \<mapsto> mini_stringify [str ''#projectx'']]\<rparr>
     (str ''#project'')"
proof -
  let ?r1 = "\<lparr>text_string = str ''Do something important #this #that/nested'', text_attributes = [],
      attributes = [''bt-tags'' \<mapsto> mini_stringify [str ''#that'', str ''#that/nested'', str ''#this'']]\<rparr>"
  let ?r2 = "\<lparr>text_string = str ''x #projectx'', text_attributes = [],
      attributes = [''bt-tags'' \<mapsto> mini_stringify [str ''#projectx'']]\<rparr>"
  have a1: "getRowTagsAttribute ?r1 = Some (mini_stringify [str ''#that'', str ''#that/nested'', str ''#this''])"
    by (simp add: getRowTagsAttribute_def TAGS_ATTR_NEW_def)
  have a2: "getRowTagsAttribute ?r2 = Some (mini_stringify [str ''#projectx''])"
    by (simp add: getRowTagsAttribute_def TAGS_ATTR_NEW_def)
  have x: "str ''#projectx'' = str ''#project'' @ 120 # []" by (simp add: str_def)
  have s: "(120 :: jschar) \<noteq> slash" by (simp add: slash_def)
  let ?t1 = "[str ''#that'', str ''#that/nested'', str ''#this'']"
  from rowMatches_exact_or_descendant
    [of ?r1 "mini_stringify ?t1" mini_parse ?t1 "str ''#that''",
     OF a1 mini_stringify_not_empty mini_roundtrip]
  have "rowMatches mini_parse ?r1 (str ''#that'')" by simp
  moreover
  from rowMatches_exact_or_descendant
    [of ?r2 "mini_stringify [str ''#projectx'']" mini_parse "[str ''#projectx'']" "str ''#project''",
     OF a2 mini_stringify_not_empty mini_roundtrip] x s
  have "\<not> rowMatches mini_parse ?r2 (str ''#project'')" by blast
  ultimately show ?thesis by simp
qed

subsection \<open>Filter command\<close>

text \<open>
  C9. When \<open>filterByTagCommand\<close> is invoked without a tag argument (\<open>context.tag\<close> undefined or
  empty) and no target can be resolved, because there is no editor, or no selection, or
  neither a tag under the caret nor a trailing tag on the selected row, it returns \<open>false\<close>
  and makes no write: no row attribute is set or removed and \<open>editor.filter\<close> is not assigned,
  so every editor state \<open>ed\<close> is left as it was.
  The model has no exceptional result on these paths, as the source has no call that throws.
\<close>

theorem filterByTagCommand_no_target:
  assumes "\<not> truthy (ctx_tag context)"
    and "ctx_editor context = None
         \<or> (\<exists>editor. ctx_editor context = Some editor
               \<and> (selection editor = None
                    \<or> (\<exists>sel. selection editor = Some sel
                          \<and> tagFromSelection sel = None \<and> lastTrailingTag (sel_row sel) = None)))"
  shows "filterByTagCommand parse context = (False, [])
       \<and> foldl performOnEditor ed (snd (filterByTagCommand parse context)) = ed"
proof -
  from assms have "filterByTagCommand parse context = (False, [])"
    by (auto simp: filterByTagCommand_def Let_def)
  then show ?thesis by simp
qed

text \<open>A caret in the middle of \<open>"Review the #draft document"\<close>, a row with no trailing tag.\<close>

theorem filterByTagCommand_no_target_witness:
  "filterByTagCommand mini_parse
     \<lparr>ctx_editor = Some
        \<lparr>selection = Some
           \<lparr>sel_type = Caret 12,
            sel_row = \<lparr>text_string = str ''Review the #draft document'', text_attributes = [],
                       attributes = Map.empty\<rparr>\<rparr>,
         descendants = [\<lparr>text_string = str ''Review the #draft document'', text_attributes = [],
                         attributes = Map.empty\<rparr>],
         editor_filter = []\<rparr>,
      ctx_tag = None\<rparr>
   = (False, [])"
proof -
  let ?row = "\<lparr>text_string = str ''Review the #draft document'', text_attributes = [],
                attributes = Map.empty\<rparr>"
  let ?sel = "\<lparr>sel_type = Caret 12, sel_row = ?row\<rparr>"
  let ?ed = "\<lparr>selection = Some ?sel, descendants = [?row], editor_filter = []\<rparr>"
  let ?ctx = "\<lparr>ctx_editor = Some ?ed, ctx_tag = None\<rparr>"
  have tokens: "findTrailingTags ?row = []"
    by (simp add: findTrailingTags_def scanTrailingTags.simps str_def isSpace_def isTagChar_def
        isWordChar_def hash_char_def slash_def space_def re_exec_def)
  have t1: "tagFromSelection ?sel = None" by (simp add: tagFromSelection_def tokens)
  have t2: "lastTrailingTag (sel_row ?sel) = None" by (simp add: lastTrailingTag_def tokens)
  have h1: "\<not> truthy (ctx_tag ?ctx)" by simp
  have h2: "ctx_editor ?ctx = None
         \<or> (\<exists>editor. ctx_editor ?ctx = Some editor
               \<and> (selection editor = None
                    \<or> (\<exists>sel. selection editor = Some sel
                          \<and> tagFromSelection sel = None \<and> lastTrailingTag (sel_row sel) = None)))"
    using t1 t2 by simp
  from filterByTagCommand_no_target [OF h1 h2] show ?thesis by simp
qed

subsection \<open>Tag index\<close>

lemma set_foldl_set_add: "set (foldl set_add tags list) = set tags \<union> set list"
  by (induction list arbitrary: tags) (auto simp: set_add_def)

lemma indexAllTags_loop_source:
  "v \<in> set (indexAllTags_loop parse tags rows) \<Longrightarrow>
     v \<in> set tags
     \<or> (\<exists>row\<in>set rows. \<exists>raw list. attributes row ''data-bt-tags'' = Some raw
           \<and> parse raw = Some (PArray list) \<and> v \<in> set list)"
proof (induction rows arbitrary: tags)
  case Nil
  then show ?case by simp
next
  case (Cons row rows)
  from Cons.IH [OF Cons.prems [unfolded indexAllTags_loop.simps]]
  show ?case
    by (auto simp: set_foldl_set_add split: option.splits if_splits parsed.splits)
qed

lemma indexAllTags_loop_append:
  "indexAllTags_loop parse tags (xs @ ys) = indexAllTags_loop parse (indexAllTags_loop parse tags xs) ys"
  by (induction xs arbitrary: tags) simp_all

text \<open>
  C10, as amended. \<open>indexAllTags\<close> reads only the legacy attribute \<open>data-bt-tags\<close>: every member
  of the returned set is listed in the legacy attribute of some row, and a row whose legacy
  attribute is absent contributes nothing (the result is the same with the row left out),
  even though \<open>getRowTagsAttribute\<close> answers with that row's \<open>bt-tags\<close> value. So a tag of such
  a row is in the returned set only when the legacy attribute of some row lists it.
\<close>

theorem indexAllTags_reads_legacy_only:
  "(\<forall>v\<in>set (indexAllTags parse rows).
       \<exists>row\<in>set rows. \<exists>raw list. attributes row ''data-bt-tags'' = Some raw
          \<and> parse raw = Some (PArray list) \<and> v \<in> set list)
   \<and> (attributes r ''data-bt-tags'' = None \<longrightarrow>
         indexAllTags parse (before @ r # after) = indexAllTags parse (before @ after)
         \<and> getRowTagsAttribute r = attributes r ''bt-tags'')"
proof -
  have "\<forall>v\<in>set (indexAllTags parse rows).
       \<exists>row\<in>set rows. \<exists>raw list. attributes row ''data-bt-tags'' = Some raw
          \<and> parse raw = Some (PArray list) \<and> v \<in> set list"
    using indexAllTags_loop_source [of _ parse "[]" rows] by (auto simp: indexAllTags_def)
  moreover have "indexAllTags parse (before @ r # after) = indexAllTags parse (before @ after)"
    if "attributes r ''data-bt-tags'' = None"
    using that by (simp add: indexAllTags_def indexAllTags_loop_append)
  moreover have "getRowTagsAttribute r = attributes r ''bt-tags''"
    if "attributes r ''data-bt-tags'' = None"
    using that by (simp add: getRowTagsAttribute_def TAGS_ATTR_NEW_def TAGS_ATTR_OLD_def split: option.splits)
  ultimately show ?thesis by blast
qed

lemma mini_parse_a: "mini_parse (str ''[\"#a\"]'') = Some (PArray [JStr (str ''#a'')])"
  by (simp add: mini_parse_def str_def lbracket_def rbracket_def quote_def backslash_def comma_def)

text \<open>Two rows: the first carries \<open>bt-tags\<close> only, the second both keys. The index holds
  what the second row lists and not the first row's tag \<open>#a\<close>.\<close>

theorem indexAllTags_reads_legacy_only_witness:
  "indexAllTags mini_parse
     [\<lparr>text_string = str ''one #a'', text_attributes = [],
       attributes = [''bt-tags'' \<mapsto> str ''[\"#a\"]'']\<rparr>,
      \<lparr>text_string = str ''two #b'', text_attributes = [],
       attributes = [''bt-tags'' \<mapsto> str ''[\"#b\"]'', ''data-bt-tags'' \<mapsto> str ''[\"#b\"]'']\<rparr>]
   = indexAllTags mini_parse
     [\<lparr>text_string = str ''two #b'', text_attributes = [],
       attributes = [''bt-tags'' \<mapsto> str ''[\"#b\"]'', ''data-bt-tags'' \<mapsto> str ''[\"#b\"]'']\<rparr>]
   \<and> getRowTagsAttribute
       \<lparr>text_string = str ''one #a'', text_attributes = [],
        attributes = [''bt-tags'' \<mapsto> str ''[\"#a\"]'']\<rparr> = Some (str ''[\"#a\"]'')
   \<and> JStr (str ''#a'') \<notin> set (indexAllTags mini_parse
     [\<lparr>text_string = str ''one #a'', text_attributes = [],
       attributes = [''bt-tags'' \<mapsto> str ''[\"#a\"]'']\<rparr>,
      \<lparr>text_string = str ''two #b'', text_attributes = [],
       attributes = [''bt-tags'' \<mapsto> str ''[\"#b\"]'', ''data-bt-tags'' \<mapsto> str ''[\"#b\"]'']\<rparr>])"
proof -
  let ?r1 = "\<lparr>text_string = str ''one #a'', text_attributes = [],
       attributes = [''bt-tags'' \<mapsto> str ''[\"#a\"]'']\<rparr>"
  let ?r2 = "\<lparr>text_string = str ''two #b'', text_attributes = [],
       attributes = [''bt-tags'' \<mapsto> str ''[\"#b\"]'', ''data-bt-tags'' \<mapsto> str ''[\"#b\"]'']\<rparr>"
  have absent: "attributes ?r1 ''data-bt-tags'' = None" by simp
  have b: "mini_parse (str ''[\"#b\"]'') = Some (PArray [JStr (str ''#b'')])"
    by (simp add: mini_parse_def str_def lbracket_def rbracket_def quote_def backslash_def comma_def)
  have only_b: "indexAllTags mini_parse [?r2] = [JStr (str ''#b'')]"
    by (simp add: indexAllTags_def b set_add_def) (simp add: str_def)
  from indexAllTags_reads_legacy_only [of mini_parse "[?r1, ?r2]" ?r1 "[]" "[?r2]"] absent
  have "indexAllTags mini_parse [?r1, ?r2] = indexAllTags mini_parse [?r2]"
    and "getRowTagsAttribute ?r1 = Some (str ''[\"#a\"]'')"
    by simp_all
  moreover from this(1) only_b have "JStr (str ''#a'') \<notin> set (indexAllTags mini_parse [?r1, ?r2])"
    by (simp add: str_def)
  ultimately show ?thesis by simp
qed

text \<open>
  C10 as stated fails when another row lists the same tag under the legacy key: the first
  row has \<open>bt-tags\<close> set to \<open>["#a"]\<close> and no legacy attribute, and its tag \<open>#a\<close> is in the
  returned set all the same, on account of the second row.
\<close>

theorem indexAllTags_shared_tag_counterexample:
  "attributes \<lparr>text_string = str ''one #a'', text_attributes = [],
       attributes = [''bt-tags'' \<mapsto> str ''[\"#a\"]'']\<rparr> ''bt-tags'' = Some (str ''[\"#a\"]'')
   \<and> attributes \<lparr>text_string = str ''one #a'', text_attributes = [],
       attributes = [''bt-tags'' \<mapsto> str ''[\"#a\"]'']\<rparr> ''data-bt-tags'' = None
   \<and> mini_parse (str ''[\"#a\"]'') = Some (PArray [JStr (str ''#a'')])
   \<and> JStr (str ''#a'') \<in> set (indexAllTags mini_parse
     [\<lparr>text_string = str ''one #a'', text_attributes = [],
       attributes = [''bt-tags'' \<mapsto> str ''[\"#a\"]'']\<rparr>,
      \<lparr>text_string = str ''two #a'', text_attributes = [],
       attributes = [''bt-tags'' \<mapsto> str ''[\"#a\"]'', ''data-bt-tags'' \<mapsto> str ''[\"#a\"]'']\<rparr>])"
proof -
  have ne: "str ''[\"#a\"]'' \<noteq> []" by (simp add: str_def)
  show ?thesis by (simp add: mini_parse_a ne indexAllTags_def set_add_def)
qed

subsection \<open>Change-gated row updater\<close>

text \<open>
  C3. The claim that the empty-candidate path also removes the visual tag markers fails. For
  a row whose text \<open>"task #a more"\<close> no longer ends in a tag, while it still carries the
  persisted set and the markers of an earlier \<open>#a\<close>, the updater issues the two
  \<open>removeAttribute\<close> calls of \<open>removeRowTagsAttribute\<close> and nothing else: the \<open>biketag\<close> and
  \<open>bt-color-1\<close> text attributes stay on the range \<open>[5, 7)\<close>. (Whatever \<open>parse\<close> and \<open>stringify\<close>
  are: this path calls neither.)
\<close>

theorem applyTagsToRow_empty_keeps_markers:
  "applyTagsToRow_calls parse stringify
     \<lparr>text_string = str ''task #a more'',
      text_attributes = [(''biketag'', 5, 7), (''bt-color-1'', 5, 7)],
      attributes = [''bt-tags'' \<mapsto> str ''[\"#a\"]'', ''data-bt-tags'' \<mapsto> str ''[\"#a\"]'']\<rparr>
     = [RemoveAttribute ''bt-tags'', RemoveAttribute ''data-bt-tags'']
   \<and> text_attributes (applyTagsToRow parse stringify
     \<lparr>text_string = str ''task #a more'',
      text_attributes = [(''biketag'', 5, 7), (''bt-color-1'', 5, 7)],
      attributes = [''bt-tags'' \<mapsto> str ''[\"#a\"]'', ''data-bt-tags'' \<mapsto> str ''[\"#a\"]'']\<rparr>)
     = [(''biketag'', 5, 7), (''bt-color-1'', 5, 7)]"
proof -
  let ?row = "\<lparr>text_string = str ''task #a more'',
      text_attributes = [(''biketag'', 5, 7), (''bt-color-1'', 5, 7)],
      attributes = [''bt-tags'' \<mapsto> str ''[\"#a\"]'', ''data-bt-tags'' \<mapsto> str ''[\"#a\"]'']\<rparr>"
  have tokens: "findTrailingTags ?row = []"
    by (simp add: findTrailingTags_def scanTrailingTags.simps str_def isSpace_def isTagChar_def
        isWordChar_def hash_char_def slash_def space_def re_exec_def)
  have raw: "getRowTagsAttribute ?row = Some (str ''[\"#a\"]'')"
    by (simp add: getRowTagsAttribute_def TAGS_ATTR_NEW_def)
  have ne: "str ''[\"#a\"]'' \<noteq> []" by (simp add: str_def)
  have calls: "applyTagsToRow_calls parse stringify ?row
      = [RemoveAttribute ''bt-tags'', RemoveAttribute ''data-bt-tags'']"
    by (simp add: applyTagsToRow_calls_def tokens raw ne removeRowTagsAttribute_def
        TAGS_ATTR_NEW_def TAGS_ATTR_OLD_def)
  show ?thesis
    unfolding applyTagsToRow_def calls by simp
qed

lemma perform_text_string: "text_string (perform row m) = text_string row"
  by (cases m) simp_all

lemma foldl_perform_text_string: "text_string (foldl perform row ms) = text_string row"
  by (induction ms arbitrary: row) (simp_all add: perform_text_string)

lemma findTrailingTags_applyTagsToRow:
  "findTrailingTags (applyTagsToRow parse stringify row) = findTrailingTags row"
  by (simp add: findTrailingTags_def applyTagsToRow_def foldl_perform_text_string)

lemma getRowTagsAttribute_after_set:
  "getRowTagsAttribute (foldl perform row (ms @ setRowTagsAttribute v)) = Some v"
  by (simp add: setRowTagsAttribute_def getRowTagsAttribute_def TAGS_ATTR_NEW_def TAGS_ATTR_OLD_def)

lemma getRowTagsAttribute_after_remove:
  "getRowTagsAttribute (foldl perform row removeRowTagsAttribute) = None"
  by (simp add: removeRowTagsAttribute_def getRowTagsAttribute_def TAGS_ATTR_NEW_def TAGS_ATTR_OLD_def)

lemma arraysEqual_refl: "arraysEqual (map JStr xs) xs"
  by (induction xs) simp_all

lemma existingEqualsNew_strings:
  "existingEqualsNew (Some (PArray (map JStr existing))) newSet \<longleftrightarrow> sort existing = newSet"
proof -
  have a: "list_all isJStr (map JStr existing)" by (simp add: list_all_iff)
  have b: "map (strOf \<circ> JStr) existing = existing" by (induction existing) simp_all
  have c: "arraysEqual (map JStr xs) ys \<longleftrightarrow> xs = ys" for xs ys
    by (induction xs arbitrary: ys) (case_tac ys; auto)+
  show ?thesis by (simp add: existingEqualsNew_def a b c)
qed

text \<open>
  C6. Let the host's \<open>JSON.parse\<close> read back what its \<open>JSON.stringify\<close> writes for an array of
  strings, a text that is never empty. Then for every row (every text and every state of
  the attributes and markers) a second run of \<open>applyTagsToRow\<close> right after a first one
  issues no host call at all: no attribute write, no attribute removal, no marker change.
  The gate behind it, in the branch for a non-empty candidate set where the source
  compares the two sets: when the persisted attribute parses to an array of strings whose
  sorted form equals the sorted candidate set, the updater issues no call.
\<close>

theorem applyTagsToRow_idempotent:
  assumes roundtrip: "\<forall>xs. parse (stringify xs) = Some (PArray (map JStr xs))"
    and nonempty: "\<forall>xs. stringify xs \<noteq> []"
  shows "applyTagsToRow_calls parse stringify (applyTagsToRow parse stringify row) = []
       \<and> (findTrailingTags row \<noteq> [] \<longrightarrow> getRowTagsAttribute row = Some raw \<longrightarrow> raw \<noteq> [] \<longrightarrow>
            parse raw = Some (PArray (map JStr existing)) \<longrightarrow>
            sort existing = sort (tagPathsOf (findTrailingTags row)) \<longrightarrow>
            applyTagsToRow_calls parse stringify row = [])"
proof
  let ?row' = "applyTagsToRow parse stringify row"
  let ?calls = "applyTagsToRow_calls parse stringify row"
  let ?newSet = "sort (tagPathsOf (findTrailingTags row))"
  have tokens: "findTrailingTags ?row' = findTrailingTags row"
    by (rule findTrailingTags_applyTagsToRow)
  show "applyTagsToRow_calls parse stringify ?row' = []"
  proof (cases "?calls = []")
    case True
    then have "?row' = row" by (simp add: applyTagsToRow_def)
    with True show ?thesis by simp
  next
    case changed: False
    show ?thesis
    proof (cases "findTrailingTags row = []")
      case True
      with changed have "?calls = removeRowTagsAttribute"
        by (simp add: applyTagsToRow_calls_def split: if_splits)
      then have "getRowTagsAttribute ?row' = None"
        by (simp add: applyTagsToRow_def getRowTagsAttribute_after_remove)
      with True tokens show ?thesis by (simp add: applyTagsToRow_calls_def)
    next
      case False
      with changed obtain ms where "?calls = ms @ setRowTagsAttribute (stringify ?newSet)"
        by (auto simp: applyTagsToRow_calls_def Let_def split: if_splits
            intro: that [of "TextRemoveAttribute ''biketag'' # _"])
      then have "?row' = foldl perform row (ms @ setRowTagsAttribute (stringify ?newSet))"
        by (simp only: applyTagsToRow_def)
      then have raw': "getRowTagsAttribute ?row' = Some (stringify ?newSet)"
        by (simp only: getRowTagsAttribute_after_set)
      have "existingEqualsNew (parse (stringify ?newSet)) ?newSet"
        using roundtrip by (simp add: existingEqualsNew_strings sorted_sort_id)
      with raw' nonempty False tokens show ?thesis
        by (simp add: applyTagsToRow_calls_def Let_def)
    qed
  qed
next
  show "findTrailingTags row \<noteq> [] \<longrightarrow> getRowTagsAttribute row = Some raw \<longrightarrow> raw \<noteq> [] \<longrightarrow>
            parse raw = Some (PArray (map JStr existing)) \<longrightarrow>
            sort existing = sort (tagPathsOf (findTrailingTags row)) \<longrightarrow>
            applyTagsToRow_calls parse stringify row = []"
    by (simp add: applyTagsToRow_calls_def Let_def existingEqualsNew_strings)
qed


text \<open>
  The row \<open>"x #this #that/nested"\<close> under the concrete codec: with no attributes the first run
  writes and the second does not; with the persisted set already there (in another order)
  the first run writes nothing either.
\<close>

theorem applyTagsToRow_idempotent_witness:
  "applyTagsToRow_calls mini_parse mini_stringify
     \<lparr>text_string = str ''x #this #that/nested'', text_attributes = [], attributes = Map.empty\<rparr> \<noteq> []
   \<and> applyTagsToRow_calls mini_parse mini_stringify
       (applyTagsToRow mini_parse mini_stringify
          \<lparr>text_string = str ''x #this #that/nested'', text_attributes = [], attributes = Map.empty\<rparr>) = []
   \<and> applyTagsToRow_calls mini_parse mini_stringify
       \<lparr>text_string = str ''x #this #that/nested'', text_attributes = [],
        attributes = [''data-bt-tags'' \<mapsto> mini_stringify [str ''#this'', str ''#that/nested'', str ''#that'']]\<rparr> = []"
proof -
  let ?r0 = "\<lparr>text_string = str ''x #this #that/nested'', text_attributes = [], attributes = Map.empty\<rparr>"
  let ?existing = "[str ''#this'', str ''#that/nested'', str ''#that'']"
  let ?r1 = "\<lparr>text_string = str ''x #this #that/nested'', text_attributes = [],
        attributes = [''data-bt-tags'' \<mapsto> mini_stringify ?existing]\<rparr>"
  let ?tokens = "[\<lparr>tag = str ''#this'', start = 2, endpos = 7\<rparr>,
                  \<lparr>tag = str ''#that/nested'', start = 8, endpos = 20\<rparr>]"
  have tokens: "findTrailingTags r = ?tokens" if "text_string r = str ''x #this #that/nested''" for r
    by (simp add: that findTrailingTags_def scanTrailingTags.simps str_def isSpace_def isTagChar_def
        isWordChar_def hash_char_def slash_def space_def re_exec_def)
  have paths: "tagPathsOf ?tokens = [str ''#this'', str ''#that'', str ''#that/nested'']"
    by (simp add: tagPathsOf_def addAncestors_def normalizeTag_def trim_def set_add_def
        str_def isSpace_def hash_char_def slash_def)
  have sorted: "sort ?existing = sort [str ''#this'', str ''#that'', str ''#that/nested'']"
    by (simp add: str_def)
  have first: "applyTagsToRow_calls mini_parse mini_stringify ?r0 \<noteq> []"
    by (simp add: applyTagsToRow_calls_def tokens getRowTagsAttribute_def)
  have raw: "getRowTagsAttribute ?r1 = Some (mini_stringify ?existing)"
    by (simp add: getRowTagsAttribute_def TAGS_ATTR_NEW_def TAGS_ATTR_OLD_def)
  have rt: "\<forall>xs. mini_parse (mini_stringify xs) = Some (PArray (map JStr xs))"
    by (simp add: mini_roundtrip)
  have ne: "\<forall>xs. mini_stringify xs \<noteq> []"
    by (simp add: mini_stringify_not_empty)
  from applyTagsToRow_idempotent [OF rt ne, of ?r0]
  have second: "applyTagsToRow_calls mini_parse mini_stringify
       (applyTagsToRow mini_parse mini_stringify ?r0) = []"
    by blast
  from applyTagsToRow_idempotent [OF rt ne, of ?r1 "mini_stringify ?existing" ?existing]
  have gate: "applyTagsToRow_calls mini_parse mini_stringify ?r1 = []"
    using raw sorted by (simp add: tokens paths mini_stringify_not_empty mini_roundtrip)
  from first second gate show ?thesis by simp
qed

end
